theory Spec2Isabelle
  imports Complex_Main
begin

section \<open>Python values and the builtins the plugin calls\<close>

text \<open>
  The plugin (\<^verbatim>\<open>feature_visibility_toggle.py\<close>) reads attribute values of map features
  and compares them with text the user typed. Attribute values are Python values: an
  integer, a float, a string, and two kinds of null. The host hands the null value of a
  data provider to Python as the object \<^verbatim>\<open>qgis.core.NULL\<close> (a null variant), which is
  not \<^verbatim>\<open>None\<close>: it differs from 0, \<^verbatim>\<open>float\<close> raises \<^verbatim>\<open>TypeError\<close> on it and
  \<^verbatim>\<open>str\<close> gives \<^verbatim>\<open>NULL\<close>. An attribute that was never given a value reads as
  \<^verbatim>\<open>None\<close>. A float is a rational number or one of the three special values;
  comparisons with \<^verbatim>\<open>nan\<close> are false, as in Python.

  A string is the list of the bytes of its UTF-8 encoding. Equality, search, splitting and
  replacement of text act on the bytes as Python's act on the code points, since an encoded
  piece of text occurs in an encoded string only where the text occurs in the string.
\<close>

datatype pyfloat = Finite rat | PosInf | NegInf | NaN

datatype pyval = PNone | PNull | PInt int | PFloat pyfloat | PStr string

fun float_lt :: "pyfloat \<Rightarrow> pyfloat \<Rightarrow> bool" where
  "float_lt NaN _ = False"
| "float_lt _ NaN = False"
| "float_lt (Finite a) (Finite b) = (a < b)"
| "float_lt (Finite a) PosInf = True"
| "float_lt (Finite a) NegInf = False"
| "float_lt PosInf _ = False"
| "float_lt NegInf (Finite b) = True"
| "float_lt NegInf PosInf = True"
| "float_lt NegInf NegInf = False"

definition float_gt :: "pyfloat \<Rightarrow> pyfloat \<Rightarrow> bool" where
  "float_gt a b = float_lt b a"

text \<open>
  The conversions \<^verbatim>\<open>float(...)\<close> and \<^verbatim>\<open>str(...)\<close> and the string methods
  \<^verbatim>\<open>lower()\<close> and \<^verbatim>\<open>strip()\<close> are Python builtins, not code of the plugin. What
  they do on text and on floats (the grammar of float literals, rounding to a double, the
  shortest representation of a float, the letters and the white space of Unicode) is taken
  as a parameter. \<open>float_of_str\<close> returns \<open>None\<close> where Python raises
  \<^verbatim>\<open>ValueError\<close>. Integers of a layer are at most 64 bits wide, so \<^verbatim>\<open>float(i)\<close> never
  overflows on them.
\<close>

record builtins =
  float_of_str :: "string \<Rightarrow> pyfloat option"
  float_of_int :: "int \<Rightarrow> pyfloat"
  str_of_float :: "pyfloat \<Rightarrow> string"
  lower :: "string \<Rightarrow> string"
  strip :: "string \<Rightarrow> string"

text \<open>\<^verbatim>\<open>float(v)\<close>: \<open>None\<close> stands for \<^verbatim>\<open>ValueError\<close> or \<^verbatim>\<open>TypeError\<close>.\<close>

fun py_float :: "builtins \<Rightarrow> pyval \<Rightarrow> pyfloat option" where
  "py_float B PNone = None"
| "py_float B PNull = None"
| "py_float B (PInt i) = Some (float_of_int B i)"
| "py_float B (PFloat x) = Some x"
| "py_float B (PStr s) = float_of_str B s"

definition digit_char :: "nat \<Rightarrow> char" where
  "digit_char n = ''0123456789'' ! n"

fun str_of_nat :: "nat \<Rightarrow> string" where
  "str_of_nat n = (if n < 10 then [digit_char n] else str_of_nat (n div 10) @ [digit_char (n mod 10)])"

definition str_of_int :: "int \<Rightarrow> string" where
  "str_of_int i = (if i < 0 then CHR ''-'' # str_of_nat (nat (- i)) else str_of_nat (nat i))"

text \<open>\<^verbatim>\<open>str(v)\<close>.\<close>

fun py_str :: "builtins \<Rightarrow> pyval \<Rightarrow> string" where
  "py_str B PNone = ''None''"
| "py_str B PNull = ''NULL''"
| "py_str B (PInt i) = str_of_int i"
| "py_str B (PFloat x) = str_of_float B x"
| "py_str B (PStr s) = s"

text \<open>\<^verbatim>\<open>v != 0\<close>: an integer or a float is compared by value, anything else (a string,
  \<^verbatim>\<open>None\<close>, the host's \<^verbatim>\<open>NULL\<close>) differs from 0.\<close>

fun py_ne_zero :: "pyval \<Rightarrow> bool" where
  "py_ne_zero (PInt i) = (i \<noteq> 0)"
| "py_ne_zero (PFloat x) = (x \<noteq> Finite 0)"
| "py_ne_zero _ = True"

subsection \<open>String methods\<close>

text \<open>\<^verbatim>\<open>s.startswith(p)\<close>, \<^verbatim>\<open>s.endswith(p)\<close> and \<^verbatim>\<open>p in s\<close>.\<close>

fun startswith :: "string \<Rightarrow> string \<Rightarrow> bool" where
  "startswith s [] = True"
| "startswith [] (p # ps) = False"
| "startswith (c # s) (p # ps) = (c = p \<and> startswith s ps)"

definition endswith :: "string \<Rightarrow> string \<Rightarrow> bool" where
  "endswith s p = startswith (rev s) (rev p)"

text \<open>\<^verbatim>\<open>p in s\<close> for two strings: \<open>p\<close> occurs in \<open>s\<close> as a contiguous piece.\<close>

fun py_in :: "string \<Rightarrow> string \<Rightarrow> bool" where
  "py_in p [] = (p = [])"
| "py_in p (c # s) = (startswith (c # s) p \<or> py_in p s)"

section \<open>Layers and features of the host\<close>

text \<open>
  A vector layer of the host application has named fields, features with one attribute
  value per field, a row filter expression (the subset string), an edit mode, and it can be
  asked to repaint. \<open>commit_ok\<close> says whether the data provider accepts a commit;
  \<open>repaints\<close> counts the repaint requests.
\<close>

record feature =
  fid :: int
  attrs :: "pyval list"

record layer =
  field_names :: "string list"
  features :: "feature list"
  subsetString :: string
  editable :: bool
  commit_ok :: bool
  repaints :: nat

text \<open>\<^verbatim>\<open>layer.fields().indexOf(name)\<close>: the index of the field, or -1.\<close>

fun indexOf :: "string list \<Rightarrow> string \<Rightarrow> int" where
  "indexOf [] name = -1"
| "indexOf (f # fs) name =
     (if f = name then 0 else (let i = indexOf fs name in if i < 0 then -1 else i + 1))"

text \<open>
  \<^verbatim>\<open>feature.attribute(idx)\<close>. The features a layer enumerates carry one value per field
  of the layer; an index beyond them reads as null.
\<close>

definition attribute :: "feature \<Rightarrow> int \<Rightarrow> pyval" where
  "attribute f idx = (if 0 \<le> idx \<and> nat idx < length (attrs f) then attrs f ! nat idx else PNone)"

section \<open>The filter predicate evaluator\<close>

text \<open>
  A filter rule is the dictionary \<^verbatim>\<open>{'type': ..., 'value': ...}\<close> stored under a field
  name; the evaluator reads both entries with \<^verbatim>\<open>.get\<close> and a default. The rules of a
  layer are a dictionary, modelled as the list of its items in iteration order.
\<close>

record filter_data =
  ftype :: "string option"
  fvalue :: "string option"

type_synonym filters = "(string \<times> filter_data) list"

text \<open>
  The two numeric branches of \<^verbatim>\<open>feature_matches_filters\<close>: the \<^verbatim>\<open>try\<close> block converts
  the feature's value (0 when it is null), then the rule's text, then compares; the
  \<^verbatim>\<open>except (ValueError, TypeError)\<close> clause turns a failed conversion into
  \<^verbatim>\<open>matches = False\<close>.
\<close>

definition numeric_matches ::
  "builtins \<Rightarrow> (pyfloat \<Rightarrow> pyfloat \<Rightarrow> bool) \<Rightarrow> pyval \<Rightarrow> string \<Rightarrow> bool" where
  "numeric_matches B cmp feature_value filter_value =
     (case (if feature_value \<noteq> PNone then py_float B feature_value else Some (Finite 0)) of
        None \<Rightarrow> False
      | Some feature_num \<Rightarrow>
          (case float_of_str B filter_value of
             None \<Rightarrow> False
           | Some filter_num \<Rightarrow> cmp feature_num filter_num))"

text \<open>The \<^verbatim>\<open>if\<close>/\<^verbatim>\<open>elif\<close> chain over the filter type; \<open>matches\<close> starts as \<open>False\<close>.\<close>

definition type_matches :: "builtins \<Rightarrow> string \<Rightarrow> pyval \<Rightarrow> string \<Rightarrow> bool" where
  "type_matches B filter_type feature_value filter_value =
     (let feature_value_str = (if feature_value = PNone then [] else lower B (py_str B feature_value));
          filter_value_lower = lower B filter_value
      in if filter_type = ''Contains'' then py_in filter_value_lower feature_value_str
         else if filter_type = ''Equals'' then feature_value_str = filter_value_lower
         else if filter_type = ''Starts with'' then startswith feature_value_str filter_value_lower
         else if filter_type = ''Ends with'' then endswith feature_value_str filter_value_lower
         else if filter_type = ''Greater than'' then numeric_matches B float_gt feature_value filter_value
         else if filter_type = ''Less than'' then numeric_matches B float_lt feature_value filter_value
         else False)"

text \<open>
  One pass through the body of the \<^verbatim>\<open>for\<close> loop: \<open>True\<close> when the loop goes on to the
  next rule (by \<^verbatim>\<open>continue\<close> or because \<open>matches\<close> is true), \<open>False\<close> when it returns
  \<^verbatim>\<open>False\<close>.
\<close>

definition rule_passes :: "builtins \<Rightarrow> feature \<Rightarrow> layer \<Rightarrow> string \<times> filter_data \<Rightarrow> bool" where
  "rule_passes B feat lyr item =
     (let field_name = fst item;
          filter_type = (case ftype (snd item) of None \<Rightarrow> ''Contains'' | Some t \<Rightarrow> t);
          filter_value = strip B (case fvalue (snd item) of None \<Rightarrow> [] | Some v \<Rightarrow> v)
      in if filter_value = [] then True
         else let field_idx = indexOf (field_names lyr) field_name
              in if field_idx < 0 then True
                 else type_matches B filter_type (attribute feat field_idx) filter_value)"

fun filters_loop :: "builtins \<Rightarrow> feature \<Rightarrow> layer \<Rightarrow> filters \<Rightarrow> bool" where
  "filters_loop B feat lyr [] = True"
| "filters_loop B feat lyr (item # rest) =
     (if \<not> rule_passes B feat lyr item then False else filters_loop B feat lyr rest)"

definition feature_matches_filters :: "builtins \<Rightarrow> feature \<Rightarrow> layer \<Rightarrow> filters \<Rightarrow> bool" where
  "feature_matches_filters B feat lyr flt =
     (if flt = [] then True else filters_loop B feat lyr flt)"

section \<open>The visibility flag\<close>

text \<open>
  The host's side of the layer interface, as the plugin uses it. The host application, not
  the plugin, keeps the fields and the attribute values and evaluates the subset string;
  its operations are written down here from the specification's description of the layer
  interface. \<^verbatim>\<open>getFeatures()\<close> enumerates the features that the layer's subset string
  accepts. Of the subset strings only the two forms that the specification names are
  interpreted: the empty string (no filter) and \<^verbatim>\<open>"_fvt_vis" = 1\<close>, which accepts a
  feature whose reserved attribute is the number 1 (a null value is not accepted). Any other
  expression is the user's own and is taken to accept every feature.
\<close>

definition vis_field :: string where
  "vis_field = ''_fvt_vis''"

text \<open>The f-string \<^verbatim>\<open>f'"{field_name}" = 1'\<close>.\<close>

definition eq_one_expr :: "string \<Rightarrow> string" where
  "eq_one_expr field_name = [CHR 0x22] @ field_name @ [CHR 0x22] @ '' = 1''"

definition is_one :: "pyval \<Rightarrow> bool" where
  "is_one v = (v = PInt 1 \<or> v = PFloat (Finite 1))"

definition subset_accepts :: "layer \<Rightarrow> feature \<Rightarrow> bool" where
  "subset_accepts lyr f =
     (if subsetString lyr = eq_one_expr vis_field
      then is_one (attribute f (indexOf (field_names lyr) vis_field))
      else True)"

definition getFeatures :: "layer \<Rightarrow> feature list" where
  "getFeatures lyr = filter (subset_accepts lyr) (features lyr)"

definition startEditing :: "layer \<Rightarrow> layer" where
  "startEditing lyr = lyr\<lparr>editable := True\<rparr>"

definition addAttribute :: "layer \<Rightarrow> string \<Rightarrow> layer" where
  "addAttribute lyr name =
     lyr\<lparr>field_names := field_names lyr @ [name],
         features := map (\<lambda>f. f\<lparr>attrs := attrs f @ [PNull]\<rparr>) (features lyr)\<rparr>"

text \<open>\<^verbatim>\<open>commitChanges()\<close> returns whether the provider took the changes and, if so, leaves
  edit mode.\<close>

definition commitChanges :: "layer \<Rightarrow> bool \<times> layer" where
  "commitChanges lyr = (if commit_ok lyr then (True, lyr\<lparr>editable := False\<rparr>) else (False, lyr))"

definition changeAttributeValue :: "layer \<Rightarrow> int \<Rightarrow> int \<Rightarrow> pyval \<Rightarrow> layer" where
  "changeAttributeValue lyr feature_id field_idx v =
     lyr\<lparr>features := map (\<lambda>f. if fid f = feature_id \<and> 0 \<le> field_idx \<and> nat field_idx < length (attrs f)
                               then f\<lparr>attrs := (attrs f)[nat field_idx := v]\<rparr> else f)
                         (features lyr)\<rparr>"

definition setSubsetString :: "layer \<Rightarrow> string \<Rightarrow> layer" where
  "setSubsetString lyr expr = lyr\<lparr>subsetString := expr\<rparr>"

definition triggerRepaint :: "layer \<Rightarrow> layer" where
  "triggerRepaint lyr = lyr\<lparr>repaints := Suc (repaints lyr)\<rparr>"

text \<open>
  \<^verbatim>\<open>ensure_visibility_field\<close>: the result and the layer afterwards. The loop that
  initialises every enumerated feature to 1 is the \<open>fold\<close>.
\<close>

definition ensure_visibility_field :: "layer \<Rightarrow> bool \<times> layer" where
  "ensure_visibility_field lyr =
     (let field_name = vis_field; field_idx = indexOf (field_names lyr) field_name
      in if field_idx = -1 then
           (if editable lyr then (False, lyr)
            else let l1 = addAttribute (startEditing lyr) field_name;
                     (success, l2) = commitChanges l1
                 in if success then
                      (let field_idx2 = indexOf (field_names l2) field_name
                       in if field_idx2 \<ge> 0 then
                            (let l3 = startEditing l2;
                                 l4 = fold (\<lambda>f l. changeAttributeValue l (fid f) field_idx2 (PInt 1))
                                        (getFeatures l3) l3
                             in (True, snd (commitChanges l4)))
                          else (True, l2))
                    else (False, l2))
         else (True, lyr))"

text \<open>\<^verbatim>\<open>update_feature_visibility_field\<close>: writes 1 or 0 for one feature.\<close>

definition update_feature_visibility_field :: "layer \<Rightarrow> int \<Rightarrow> bool \<Rightarrow> layer" where
  "update_feature_visibility_field lyr feature_id visible =
     (let field_idx = indexOf (field_names lyr) vis_field
      in if field_idx = -1 then lyr
         else if editable lyr then lyr
         else let l1 = startEditing lyr;
                  v = (if visible then 1 else 0);
                  l2 = changeAttributeValue l1 feature_id field_idx (PInt v)
              in snd (commitChanges l2))"

text \<open>
  \<^verbatim>\<open>update_layer_visibility\<close>: the layer afterwards and the number of refreshes asked of
  the map canvas, which the second argument counts.
\<close>

definition update_layer_visibility :: "layer \<Rightarrow> nat \<Rightarrow> layer \<times> nat" where
  "update_layer_visibility lyr canvas_refreshes =
     (let field_name = vis_field; field_idx = indexOf (field_names lyr) field_name
      in if field_idx = -1 then (setSubsetString lyr [], canvas_refreshes)
         else (triggerRepaint (setSubsetString lyr (eq_one_expr field_name)), Suc canvas_refreshes))"

section \<open>Populating the feature list\<close>

text \<open>The visibility read in \<^verbatim>\<open>on_layer_selected\<close>.\<close>

definition is_visible :: "int \<Rightarrow> feature \<Rightarrow> bool" where
  "is_visible vis_field_idx f =
     (if vis_field_idx \<ge> 0
      then (let vis_value = attribute f vis_field_idx in vis_value \<noteq> PNone \<and> py_ne_zero vis_value)
      else True)"

text \<open>
  The loop over \<^verbatim>\<open>layer.getFeatures()\<close>. \<open>tracking\<close> is the dictionary
  \<^verbatim>\<open>self.feature_visibility[layer_id]\<close>, \<open>features_data\<close> the list built so far, and
  \<open>feature_limit\<close> is \<open>None\<close> when the configured limit is not positive.
\<close>

type_synonym feature_row = "int \<times> feature \<times> bool"

fun populate_loop ::
  "builtins \<Rightarrow> layer \<Rightarrow> filters \<Rightarrow> int \<Rightarrow> int option \<Rightarrow> feature list \<Rightarrow>
   (int \<rightharpoonup> bool) \<Rightarrow> feature_row list \<Rightarrow> (int \<rightharpoonup> bool) \<times> feature_row list" where
  "populate_loop B lyr active_filters vis_field_idx feature_limit [] tracking features_data =
     (tracking, features_data)"
| "populate_loop B lyr active_filters vis_field_idx feature_limit (f # rest) tracking features_data =
     (if \<not> feature_matches_filters B f lyr active_filters
      then populate_loop B lyr active_filters vis_field_idx feature_limit rest tracking features_data
      else let vis = is_visible vis_field_idx f;
               tracking' = (if tracking (fid f) = None then tracking(fid f \<mapsto> vis) else tracking);
               features_data' = features_data @ [(fid f, f, vis)]
           in if (case feature_limit of None \<Rightarrow> False
                           | Some n \<Rightarrow> n \<noteq> 0 \<and> int (length features_data') \<ge> n)
              then (tracking', features_data')
              else populate_loop B lyr active_filters vis_field_idx feature_limit rest tracking' features_data')"

definition populate ::
  "builtins \<Rightarrow> layer \<Rightarrow> filters \<Rightarrow> int \<Rightarrow> (int \<rightharpoonup> bool) \<Rightarrow> (int \<rightharpoonup> bool) \<times> feature_row list" where
  "populate B lyr active_filters limit tracking =
     (let vis_field_idx = indexOf (field_names lyr) vis_field;
          feature_limit = (if limit > 0 then Some limit else None)
      in populate_loop B lyr active_filters vis_field_idx feature_limit (getFeatures lyr) tracking [])"

text \<open>The tuple that the loop appends to \<open>features_data\<close> for a feature.\<close>

definition row_of :: "int \<Rightarrow> feature \<Rightarrow> feature_row" where
  "row_of vis_field_idx f = (fid f, f, is_visible vis_field_idx f)"

section \<open>Saving and loading the filter rules\<close>

text \<open>
  \<^verbatim>\<open>str.replace(old, new)\<close> scans from the left and replaces every occurrence that does
  not overlap an earlier one; with an empty \<open>old\<close> Python puts \<open>new\<close> around every
  character.
\<close>

function replace_scan :: "string \<Rightarrow> string \<Rightarrow> string \<Rightarrow> string" where
  "replace_scan old new [] = []"
| "replace_scan old new (c # s) =
     (if old \<noteq> [] \<and> startswith (c # s) old
      then new @ replace_scan old new (drop (length old) (c # s))
      else c # replace_scan old new s)"
  by pat_completeness auto
termination
  by (relation "measure (\<lambda>(old, new, s). length s)") (auto simp: neq_Nil_conv)

definition replace :: "string \<Rightarrow> string \<Rightarrow> string \<Rightarrow> string" where
  "replace s old new =
     (if old = [] then new @ concat (map (\<lambda>c. c # new) s) else replace_scan old new s)"

text \<open>\<^verbatim>\<open>s.split(sep)\<close> and \<^verbatim>\<open>s.split(sep, maxsplit)\<close> for a separator of one character.\<close>

fun split :: "string \<Rightarrow> char \<Rightarrow> string list" where
  "split [] sep = [[]]"
| "split (c # s) sep =
     (if c = sep then [] # split s sep
      else (case split s sep of [] \<Rightarrow> [[c]] | p # ps \<Rightarrow> (c # p) # ps))"

fun split_max :: "string \<Rightarrow> char \<Rightarrow> nat \<Rightarrow> string list" where
  "split_max s sep 0 = [s]"
| "split_max [] sep (Suc n) = [[]]"
| "split_max (c # s) sep (Suc n) =
     (if c = sep then [] # split_max s sep n
      else (case split_max s sep (Suc n) of [] \<Rightarrow> [[c]] | p # ps \<Rightarrow> (c # p) # ps))"

fun join :: "string \<Rightarrow> string list \<Rightarrow> string" where
  "join sep [] = []"
| "join sep [x] = x"
| "join sep (x # y # r) = x @ sep @ join sep (y # r)"

definition escape :: "string \<Rightarrow> string" where
  "escape s = replace (replace s '':'' ''_COLON_'') ''|'' ''_PIPE_''"

definition unescape :: "string \<Rightarrow> string" where
  "unescape s = replace (replace s ''_COLON_'' '':'') ''_PIPE_'' ''|''"

text \<open>
  One pass of the loop in \<^verbatim>\<open>save_settings\<close> that builds \<open>filters_parts\<close>:
  \<^verbatim>\<open>filter_data['type']\<close> and \<^verbatim>\<open>filter_data['value']\<close> raise \<^verbatim>\<open>KeyError\<close> on a missing
  entry, which is \<open>None\<close> here.
\<close>

definition filter_part_of :: "string \<times> filter_data \<Rightarrow> string option" where
  "filter_part_of item =
     (case ftype (snd item) of None \<Rightarrow> None
      | Some t \<Rightarrow>
          (case fvalue (snd item) of None \<Rightarrow> None
           | Some v \<Rightarrow> Some (escape (fst item) @ '':'' @ escape t @ '':'' @ escape v)))"

text \<open>
  What \<^verbatim>\<open>save_settings\<close> stores under the key \<^verbatim>\<open>filters\<close> of a layer: nothing
  (\<open>None\<close>) when there are no parts, or when a \<^verbatim>\<open>KeyError\<close> sends the function to its
  \<^verbatim>\<open>except\<close> clause before the value is written.
\<close>

definition save_filters :: "filters \<Rightarrow> string option" where
  "save_filters layer_filters =
     (case those (map filter_part_of layer_filters) of
        None \<Rightarrow> None
      | Some filters_parts \<Rightarrow> if filters_parts = [] then None else Some (join ''|'' filters_parts))"

text \<open>\<^verbatim>\<open>d[k] = v\<close> on a dictionary kept as the list of its items.\<close>

fun dict_set :: "('k \<times> 'v) list \<Rightarrow> 'k \<Rightarrow> 'v \<Rightarrow> ('k \<times> 'v) list" where
  "dict_set [] k v = [(k, v)]"
| "dict_set ((k', v') # d) k v = (if k' = k then (k, v) # d else (k', v') # dict_set d k v)"

fun load_loop :: "string list \<Rightarrow> filters \<Rightarrow> filters" where
  "load_loop [] layer_filters = layer_filters"
| "load_loop (filter_part # rest) layer_filters =
     (if py_in '':'' filter_part then
        (let parts = split_max filter_part CHR '':'' 2
         in if length parts \<ge> 3 then
              load_loop rest
                (dict_set layer_filters (unescape (parts ! 0))
                   \<lparr>ftype = Some (unescape (parts ! 1)), fvalue = Some (unescape (parts ! 2))\<rparr>)
            else load_loop rest layer_filters)
      else load_loop rest layer_filters)"

text \<open>
  What \<^verbatim>\<open>load_settings\<close> puts into \<^verbatim>\<open>self.layer_filters[layer_id]\<close> from the stored
  value (\<^verbatim>\<open>settings.value("filters", "")\<close>): \<open>None\<close> when it assigns nothing.
\<close>

definition load_filters :: "string option \<Rightarrow> filters option" where
  "load_filters stored =
     (let filters_str = (case stored of None \<Rightarrow> [] | Some s \<Rightarrow> s)
      in if filters_str \<noteq> [] then
           (let layer_filters = load_loop (split filters_str CHR ''|'') []
            in if layer_filters \<noteq> [] then Some layer_filters else None)
         else None)"

text \<open>
  For the proofs: what escaping does to one character, what is left of it after the first
  replacement of \<^verbatim>\<open>unescape\<close>, and the strings on which escaping can be undone for
  certain, those that do not contain the text \<^verbatim>\<open>COLON\<close> or \<^verbatim>\<open>PIPE\<close>.
\<close>

definition esc_char :: "char \<Rightarrow> string" where
  "esc_char c = (if c = CHR '':'' then ''_COLON_'' else if c = CHR ''|'' then ''_PIPE_'' else [c])"

definition pipe_char :: "char \<Rightarrow> string" where
  "pipe_char c = (if c = CHR ''|'' then ''_PIPE_'' else [c])"

definition clean :: "string \<Rightarrow> bool" where
  "clean s = (\<not> py_in ''COLON'' s \<and> \<not> py_in ''PIPE'' s)"

text \<open>
  A string that unescaping gives back after escaping, and a rule that has its type and its
  value, with such a field name, type and value.
\<close>

definition reversible :: "string \<Rightarrow> bool" where
  "reversible s = (unescape (escape s) = s)"

definition reversible_item :: "string \<times> filter_data \<Rightarrow> bool" where
  "reversible_item item =
     (reversible (fst item) \<and>
      (case ftype (snd item) of None \<Rightarrow> False | Some t \<Rightarrow> reversible t) \<and>
      (case fvalue (snd item) of None \<Rightarrow> False | Some v \<Rightarrow> reversible v))"

section \<open>Example data\<close>

text \<open>
  An instance of the builtins for running the model on examples of ASCII text:
  \<^verbatim>\<open>float\<close> reads unsigned decimal numerals and fails on any other text, \<^verbatim>\<open>lower\<close>
  maps the letters A to Z, and \<^verbatim>\<open>strip\<close> removes the ASCII characters that Python counts
  as white space. On ASCII strings the last two are what Python computes.
\<close>

definition ascii_lower_char :: "char \<Rightarrow> char" where
  "ascii_lower_char c =
     (case map_of (zip ''ABCDEFGHIJKLMNOPQRSTUVWXYZ'' ''abcdefghijklmnopqrstuvwxyz'') c of
        None \<Rightarrow> c
      | Some d \<Rightarrow> d)"

definition ascii_lower :: "string \<Rightarrow> string" where
  "ascii_lower s = map ascii_lower_char s"

definition ascii_space :: "char \<Rightarrow> bool" where
  "ascii_space c = ((of_char c :: nat) \<in> {9, 10, 11, 12, 13, 28, 29, 30, 31, 32})"

definition ascii_strip :: "string \<Rightarrow> string" where
  "ascii_strip s = rev (dropWhile ascii_space (rev (dropWhile ascii_space s)))"

definition digit_of :: "char \<Rightarrow> nat option" where
  "digit_of c = map_of (zip ''0123456789'' [0, 1, 2, 3, 4, 5, 6, 7, 8, 9]) c"

fun nat_of_digits :: "string \<Rightarrow> nat \<Rightarrow> nat option" where
  "nat_of_digits [] acc = Some acc"
| "nat_of_digits (c # s) acc =
     (case digit_of c of None \<Rightarrow> None | Some d \<Rightarrow> nat_of_digits s (10 * acc + d))"

definition decimal_builtins :: builtins where
  "decimal_builtins =
     \<lparr>float_of_str = (\<lambda>s. if s = [] then None
                           else map_option (\<lambda>n. Finite (of_nat n)) (nat_of_digits s 0)),
      float_of_int = (\<lambda>i. Finite (of_int i)),
      str_of_float = (\<lambda>x. ''float''),
      lower = ascii_lower,
      strip = ascii_strip\<rparr>"

text \<open>A layer of three towns without the reserved field.\<close>

definition jack :: feature where
  "jack = \<lparr>fid = 1, attrs = [PStr ''Jack'', PStr ''250'']\<rparr>"

definition bob :: feature where
  "bob = \<lparr>fid = 2, attrs = [PStr ''Bob'', PStr ''abc'']\<rparr>"

definition jacky :: feature where
  "jacky = \<lparr>fid = 3, attrs = [PStr ''Jacky'', PNone]\<rparr>"

text \<open>A feature whose population is the host's \<^verbatim>\<open>NULL\<close>.\<close>

definition nell :: feature where
  "nell = \<lparr>fid = 4, attrs = [PStr ''Nell'', PNull]\<rparr>"

definition towns :: layer where
  "towns = \<lparr>field_names = [''name'', ''pop''], features = [jack, bob, jacky],
            subsetString = [], editable = False, commit_ok = True, repaints = 0\<rparr>"

definition rule :: "string \<Rightarrow> string \<Rightarrow> filter_data" where
  "rule kind text = \<lparr>ftype = Some kind, fvalue = Some text\<rparr>"

text \<open>A layer that carries the reserved field: one feature each with the value 1, 0,
  \<^verbatim>\<open>None\<close>, 2 and the host's \<^verbatim>\<open>NULL\<close>.\<close>

definition ann :: feature where
  "ann = \<lparr>fid = 1, attrs = [PStr ''Ann'', PInt 1]\<rparr>"

definition ben :: feature where
  "ben = \<lparr>fid = 2, attrs = [PStr ''Ben'', PInt 0]\<rparr>"

definition cat :: feature where
  "cat = \<lparr>fid = 3, attrs = [PStr ''Cat'', PNone]\<rparr>"

definition dan :: feature where
  "dan = \<lparr>fid = 4, attrs = [PStr ''Dan'', PInt 2]\<rparr>"

definition eve :: feature where
  "eve = \<lparr>fid = 5, attrs = [PStr ''Eve'', PNull]\<rparr>"

definition flagged :: layer where
  "flagged = \<lparr>field_names = [''name'', ''_fvt_vis''], features = [ann, ben, cat, dan, eve],
            subsetString = [], editable = False, commit_ok = True, repaints = 0\<rparr>"

section \<open>Properties of the evaluator\<close>

lemma filters_loop_all:
  "filters_loop B feat lyr flt = list_all (rule_passes B feat lyr) flt"
  by (induction flt) auto

lemmas eval_defs = feature_matches_filters_def rule_passes_def type_matches_def
  numeric_matches_def ascii_strip_def ascii_space_def ascii_lower_def ascii_lower_char_def
  attribute_def endswith_def float_gt_def decimal_builtins_def digit_of_def towns_def rule_def
  jack_def bob_def jacky_def nell_def

lemmas data_defs = attribute_def towns_def jack_def bob_def jacky_def nell_def rule_def
  decimal_builtins_def digit_of_def ascii_strip_def ascii_space_def

text \<open>The examples of the specification: a substring rule and a numeric rule.\<close>

lemma contains_example:
  "feature_matches_filters decimal_builtins jack towns [(''name'', rule ''Contains'' ''ac'')] \<and>
   \<not> feature_matches_filters decimal_builtins bob towns [(''name'', rule ''Contains'' ''ac'')]"
  by (simp add: eval_defs)

lemma greater_than_example:
  "feature_matches_filters decimal_builtins jack towns [(''pop'', rule ''Greater than'' ''100'')] \<and>
   \<not> feature_matches_filters decimal_builtins bob towns [(''pop'', rule ''Greater than'' ''100'')]"
  by (simp add: eval_defs)

text \<open>
  Claim C6. The evaluator accepts every feature when there is no rule; otherwise it accepts
  a feature if and only if every rule lets it pass (logical AND); and a rule that does not
  let the feature pass decides the result \<open>False\<close> whatever rules come after it.
\<close>

theorem evaluator_is_conjunction:
  "feature_matches_filters B feat lyr [] \<and>
   (feature_matches_filters B feat lyr flt \<longleftrightarrow> (\<forall>item \<in> set flt. rule_passes B feat lyr item)) \<and>
   ((\<forall>item \<in> set pre. rule_passes B feat lyr item) \<and> \<not> rule_passes B feat lyr r \<longrightarrow>
      \<not> feature_matches_filters B feat lyr (pre @ r # post))"
  by (auto simp: feature_matches_filters_def filters_loop_all list_all_iff)

theorem evaluator_is_conjunction_witness:
  "feature_matches_filters decimal_builtins bob towns [] \<and>
   rule_passes decimal_builtins bob towns (''name'', rule ''Contains'' ''b'') \<and>
   \<not> rule_passes decimal_builtins bob towns (''pop'', rule ''Greater than'' ''100'') \<and>
   \<not> feature_matches_filters decimal_builtins bob towns
        ([(''name'', rule ''Contains'' ''b'')] @ (''pop'', rule ''Greater than'' ''100'')
           # [(''name'', rule ''Equals'' ''bob'')])"
proof -
  have a: "rule_passes decimal_builtins bob towns (''name'', rule ''Contains'' ''b'')"
    by (simp add: eval_defs)
  have b: "\<not> rule_passes decimal_builtins bob towns (''pop'', rule ''Greater than'' ''100'')"
    by (simp add: eval_defs)
  from a have c: "\<forall>item \<in> set [(''name'', rule ''Contains'' ''b'')].
      rule_passes decimal_builtins bob towns item"
    by simp
  note t = evaluator_is_conjunction [of decimal_builtins bob towns "[]"
      "[(''name'', rule ''Contains'' ''b'')]" "(''pop'', rule ''Greater than'' ''100'')"
      "[(''name'', rule ''Equals'' ''bob'')]"]
  from t have e: "feature_matches_filters decimal_builtins bob towns []"
    by (rule conjunct1)
  from t b c have d: "\<not> feature_matches_filters decimal_builtins bob towns
        ([(''name'', rule ''Contains'' ''b'')] @ (''pop'', rule ''Greater than'' ''100'')
           # [(''name'', rule ''Equals'' ''bob'')])"
    by blast
  from e a b d show ?thesis by blast
qed

text \<open>
  Claim C5, as the code has it. A numeric rule that is in force (its text is not blank after
  \<^verbatim>\<open>strip()\<close> and its field exists on the layer) converts the feature's value, with 0
  for the value \<^verbatim>\<open>None\<close>, and the rule's text to numbers and compares them; when either
  conversion fails the rule does not match, and the evaluator returns \<open>False\<close> for every
  rule set that holds the rule. No error is raised: the result is a truth value in every
  case.
\<close>

theorem numeric_rule:
  assumes kind: "ftype fd = Some kind" "kind = ''Greater than'' \<or> kind = ''Less than''"
    and val: "fvalue fd = Some text" "strip B text \<noteq> []"
    and field: "indexOf (field_names lyr) field \<ge> 0"
    and v: "v = attribute feat (indexOf (field_names lyr) field)"
    and a: "feature_num = (if v = PNone then Some (Finite 0) else py_float B v)"
    and b: "filter_num = float_of_str B (strip B text)"
  shows "rule_passes B feat lyr (field, fd) =
           (case feature_num of
              None \<Rightarrow> False
            | Some x \<Rightarrow>
                (case filter_num of
                   None \<Rightarrow> False
                 | Some y \<Rightarrow>
                     if kind = ''Greater than'' then float_lt y x else float_lt x y)) \<and>
         ((feature_num = None \<or> filter_num = None) \<and> (field, fd) \<in> set flt \<longrightarrow>
            \<not> feature_matches_filters B feat lyr flt)"
proof -
  have eq: "rule_passes B feat lyr (field, fd) =
           (case feature_num of
              None \<Rightarrow> False
            | Some x \<Rightarrow>
                (case filter_num of
                   None \<Rightarrow> False
                 | Some y \<Rightarrow>
                     if kind = ''Greater than'' then float_lt y x else float_lt x y))"
    using assms
    by (auto simp: rule_passes_def type_matches_def numeric_matches_def float_gt_def Let_def
        split: option.splits)
  have "\<not> feature_matches_filters B feat lyr flt"
    if "feature_num = None \<or> filter_num = None" "(field, fd) \<in> set flt"
  proof -
    from that(1) eq have "\<not> rule_passes B feat lyr (field, fd)"
      by (auto split: option.splits)
    with that(2) show ?thesis
      by (auto simp: feature_matches_filters_def filters_loop_all list_all_iff)
  qed
  with eq show ?thesis by blast
qed

text \<open>
  The same rule on four features: a number above the bound, \<^verbatim>\<open>None\<close> (read as 0), text
  that is no number, and the host's \<^verbatim>\<open>NULL\<close>, on which \<^verbatim>\<open>float\<close> fails.
\<close>

theorem numeric_rule_witness:
  "rule_passes decimal_builtins jack towns (''pop'', rule ''Greater than'' ''100'') \<and>
   rule_passes decimal_builtins jacky towns (''pop'', rule ''Less than'' ''100'') \<and>
   \<not> rule_passes decimal_builtins nell towns (''pop'', rule ''Less than'' ''100'') \<and>
   \<not> rule_passes decimal_builtins bob towns (''pop'', rule ''Greater than'' ''100'') \<and>
   \<not> feature_matches_filters decimal_builtins bob towns
       [(''name'', rule ''Contains'' ''b''), (''pop'', rule ''Greater than'' ''100'')]"
proof -
  have k1: "ftype (rule ''Greater than'' ''100'') = Some ''Greater than''"
    and k2: "ftype (rule ''Less than'' ''100'') = Some ''Less than''"
    and v1: "fvalue (rule ''Greater than'' ''100'') = Some ''100''"
    and v2: "fvalue (rule ''Less than'' ''100'') = Some ''100''"
    by (simp_all add: rule_def)
  have g: "''Greater than'' = ''Greater than'' \<or> ''Greater than'' = ''Less than''"
    and l: "''Less than'' = ''Greater than'' \<or> ''Less than'' = ''Less than''"
    by simp_all
  have s: "strip decimal_builtins ''100'' \<noteq> []"
    by (simp add: decimal_builtins_def ascii_strip_def ascii_space_def)
  have f: "indexOf (field_names towns) ''pop'' \<ge> 0"
    by (simp add: towns_def)
  have gt: "rule_passes decimal_builtins jack towns (''pop'', rule ''Greater than'' ''100'')"
    using numeric_rule [where feat = jack and B = decimal_builtins and flt = "[]", OF k1 g v1 s f refl refl refl]
    by (simp add: data_defs)
  have none: "rule_passes decimal_builtins jacky towns (''pop'', rule ''Less than'' ''100'')"
    using numeric_rule [where feat = jacky and B = decimal_builtins and flt = "[]", OF k2 l v2 s f refl refl refl]
    by (simp add: data_defs)
  have null: "\<not> rule_passes decimal_builtins nell towns (''pop'', rule ''Less than'' ''100'')"
    using numeric_rule [where feat = nell and B = decimal_builtins and flt = "[]", OF k2 l v2 s f refl refl refl]
    by (simp add: data_defs)
  have bad: "\<not> rule_passes decimal_builtins bob towns (''pop'', rule ''Greater than'' ''100'') \<and>
     \<not> feature_matches_filters decimal_builtins bob towns
       [(''name'', rule ''Contains'' ''b''), (''pop'', rule ''Greater than'' ''100'')]"
    using numeric_rule [where feat = bob and B = decimal_builtins
        and flt = "[(''name'', rule ''Contains'' ''b''), (''pop'', rule ''Greater than'' ''100'')]",
        OF k1 g v1 s f refl refl refl]
    by (simp add: data_defs)
  from gt none null bad show ?thesis by blast
qed

text \<open>
  Claim C5 as stated fails: a numeric rule whose text is blank does not convert to a number,
  yet the loop skips the rule (\<^verbatim>\<open>if not filter_value: continue\<close>) and the feature is
  accepted, also a feature whose own value is no number. A numeric rule on a field that the
  layer does not have is skipped in the same way, whatever its text.
\<close>

theorem blank_numeric_rule_is_skipped:
  "float_of_str decimal_builtins ''   '' = None \<and>
   float_of_str decimal_builtins (strip decimal_builtins ''   '') = None \<and>
   py_float decimal_builtins (attribute bob (indexOf (field_names towns) ''pop'')) = None \<and>
   rule_passes decimal_builtins bob towns (''pop'', rule ''Greater than'' ''   '') \<and>
   feature_matches_filters decimal_builtins bob towns [(''pop'', rule ''Greater than'' ''   '')] \<and>
   indexOf (field_names towns) ''area'' = -1 \<and>
   float_of_str decimal_builtins ''many'' = None \<and>
   feature_matches_filters decimal_builtins bob towns [(''area'', rule ''Less than'' ''many'')]"
  by (simp add: eval_defs)

text \<open>
  Claim C2. A rule whose type is none of the six comparisons, with text that is not blank
  and a field that exists on the layer, is not inert: \<open>matches\<close> keeps its initial value
  \<open>False\<close> and the evaluator rejects the feature, although the same feature passes when
  there is no rule. \<^verbatim>\<open>load_settings\<close> accepts any type text from the settings store, and
  the settings dialog (\<^verbatim>\<open>set_filters\<close>) shows such a rule as "No filter".
\<close>

theorem unknown_kind_rejects:
  "load_filters (Some ''name:Bogus:Jack'') = Some [(''name'', rule ''Bogus'' ''Jack'')] \<and>
   feature_matches_filters decimal_builtins jack towns [] \<and>
   \<not> feature_matches_filters decimal_builtins jack towns [(''name'', rule ''Bogus'' ''Jack'')] \<and>
   \<not> feature_matches_filters decimal_builtins jack towns [(''name'', rule ''No filter'' ''Jack'')]"
proof -
  have "load_filters (Some ''name:Bogus:Jack'') = Some [(''name'', rule ''Bogus'' ''Jack'')]"
    by (simp add: load_filters_def unescape_def replace_def rule_def Let_def numeral_2_eq_2)
  moreover have "feature_matches_filters decimal_builtins jack towns []"
    by (simp add: feature_matches_filters_def)
  moreover have "\<not> feature_matches_filters decimal_builtins jack towns [(''name'', rule ''Bogus'' ''Jack'')]"
    by (simp add: eval_defs)
  moreover have "\<not> feature_matches_filters decimal_builtins jack towns [(''name'', rule ''No filter'' ''Jack'')]"
    by (simp add: eval_defs)
  ultimately show ?thesis by blast
qed

section \<open>Properties of the visibility flag\<close>

lemmas flag_defs = flagged_def ann_def ben_def cat_def dan_def eve_def vis_field_def attribute_def

lemma indexOf_ge: "indexOf fs n \<ge> -1"
  by (induction fs) (auto simp: Let_def)

lemma indexOf_absent: "indexOf fs n = -1 \<longleftrightarrow> n \<notin> set fs"
proof (induction fs)
  case Nil
  then show ?case by simp
next
  case (Cons a fs)
  then show ?case using indexOf_ge[of fs n] by (auto simp: Let_def)
qed

lemma indexOf_present: "0 \<le> indexOf fs n \<longleftrightarrow> n \<in> set fs"
  using indexOf_ge[of fs n] indexOf_absent[of fs n] by auto

lemma ensure_present:
  "vis_field \<in> set (field_names lyr) \<Longrightarrow> ensure_visibility_field lyr = (True, lyr)"
  by (simp add: ensure_visibility_field_def Let_def indexOf_absent)

lemma fold_change_fields:
  "field_names (fold (\<lambda>f l. changeAttributeValue l (fid f) i v) fs l) = field_names l"
  by (induction fs arbitrary: l) (auto simp: changeAttributeValue_def)

lemma ensure_creates:
  assumes "fst (ensure_visibility_field lyr)"
  shows "vis_field \<in> set (field_names (snd (ensure_visibility_field lyr)))"
proof (cases "vis_field \<in> set (field_names lyr)")
  case True
  then show ?thesis by (simp add: ensure_present)
next
  case False
  with assms show ?thesis
    by (auto simp: ensure_visibility_field_def Let_def indexOf_absent commitChanges_def
        addAttribute_def startEditing_def fold_change_fields split: if_splits prod.splits)
qed

text \<open>
  Claim C7. \<^verbatim>\<open>ensure_visibility_field\<close> on a layer that has the reserved field returns
  success and leaves the layer as it is: no field is added and no attribute value changes.
  So a second call after a successful one changes nothing.
\<close>

theorem ensure_visibility_field_idempotent:
  "(vis_field \<in> set (field_names lyr) \<longrightarrow> ensure_visibility_field lyr = (True, lyr)) \<and>
   (fst (ensure_visibility_field lyr) \<longrightarrow>
      ensure_visibility_field (snd (ensure_visibility_field lyr))
        = (True, snd (ensure_visibility_field lyr)))"
  using ensure_present ensure_creates by blast

lemma ensure_towns: "ensure_visibility_field towns =
  (True, \<lparr>field_names = [''name'', ''pop'', ''_fvt_vis''],
     features = [\<lparr>fid = 1, attrs = [PStr ''Jack'', PStr ''250'', PInt 1]\<rparr>,
                 \<lparr>fid = 2, attrs = [PStr ''Bob'', PStr ''abc'', PInt 1]\<rparr>,
                 \<lparr>fid = 3, attrs = [PStr ''Jacky'', PNone, PInt 1]\<rparr>],
     subsetString = [], editable = False, commit_ok = True, repaints = 0\<rparr>)"
  by (simp add: ensure_visibility_field_def Let_def towns_def jack_def bob_def jacky_def vis_field_def
      commitChanges_def addAttribute_def startEditing_def getFeatures_def subset_accepts_def eq_one_expr_def
      changeAttributeValue_def)

theorem ensure_visibility_field_idempotent_witness:
  "vis_field \<in> set (field_names flagged) \<and> ensure_visibility_field flagged = (True, flagged) \<and>
   fst (ensure_visibility_field towns) \<and>
   ensure_visibility_field (snd (ensure_visibility_field towns)) = (True, snd (ensure_visibility_field towns))"
proof -
  have a: "vis_field \<in> set (field_names flagged)"
    by (simp add: flagged_def vis_field_def)
  have b: "fst (ensure_visibility_field towns)"
    by (simp add: ensure_towns)
  note t1 = ensure_visibility_field_idempotent [of flagged]
  note t2 = ensure_visibility_field_idempotent [of towns]
  from t1 a have c: "ensure_visibility_field flagged = (True, flagged)" by blast
  from t2 b have d: "ensure_visibility_field (snd (ensure_visibility_field towns))
      = (True, snd (ensure_visibility_field towns))" by blast
  from a b c d show ?thesis by blast
qed

text \<open>
  Claim C3, as the code has it. \<^verbatim>\<open>update_layer_visibility\<close> sets the subset string to
  \<^verbatim>\<open>"_fvt_vis" = 1\<close> and asks the layer and the map canvas to redraw when the reserved
  field exists; when it does not, it clears the subset string and returns without asking
  for a redraw.
\<close>

theorem update_layer_visibility_effect:
  "update_layer_visibility lyr n =
     (if vis_field \<in> set (field_names lyr)
      then (lyr\<lparr>subsetString := CHR 0x22 # ''_fvt_vis'' @ CHR 0x22 # '' = 1'',
                repaints := Suc (repaints lyr)\<rparr>, Suc n)
      else (lyr\<lparr>subsetString := []\<rparr>, n))"
  by (simp add: update_layer_visibility_def Let_def indexOf_absent setSubsetString_def
      triggerRepaint_def eq_one_expr_def vis_field_def)

theorem update_layer_visibility_effect_witness:
  "update_layer_visibility flagged 0 =
     (flagged\<lparr>subsetString := CHR 0x22 # ''_fvt_vis'' @ CHR 0x22 # '' = 1'', repaints := 1\<rparr>, 1) \<and>
   update_layer_visibility towns 0 = (towns, 0)"
proof -
  have "update_layer_visibility flagged 0 =
     (flagged\<lparr>subsetString := CHR 0x22 # ''_fvt_vis'' @ CHR 0x22 # '' = 1'', repaints := 1\<rparr>, 1)"
    using update_layer_visibility_effect [of flagged 0] by (simp add: flagged_def vis_field_def)
  moreover have "update_layer_visibility towns 0 = (towns, 0)"
    using update_layer_visibility_effect [of towns 0] by (simp add: towns_def vis_field_def)
  ultimately show ?thesis by blast
qed

text \<open>
  Claim C3 as stated fails: on a layer without the reserved field the filter is cleared, and
  neither the layer's repaint count nor the canvas's refresh count moves.
\<close>

theorem no_redraw_without_field:
  "vis_field \<notin> set (field_names towns) \<and>
   subsetString (fst (update_layer_visibility towns 0)) = [] \<and>
   repaints (fst (update_layer_visibility towns 0)) = repaints towns \<and>
   snd (update_layer_visibility towns 0) = 0"
  by (simp add: update_layer_visibility_def Let_def setSubsetString_def towns_def vis_field_def)

text \<open>
  Claim C9. With the reserved field on the layer, the visibility read is decided by ``the
  value is not \<^verbatim>\<open>None\<close> and differs from 0'': a stored integer reads as visible exactly
  when it is not 0, and \<^verbatim>\<open>None\<close> reads as hidden. The subset string that
  \<^verbatim>\<open>update_layer_visibility\<close> sets is \<^verbatim>\<open>"_fvt_vis" = 1\<close>, which accepts a stored integer
  exactly when it is 1. So a feature with the value 2 or -1 is shown as visible in the panel
  and left out by the row filter.
\<close>

theorem nonzero_flag_reads_visible:
  assumes "idx = indexOf (field_names lyr) vis_field" "idx \<ge> 0"
  shows "(is_visible idx f \<longleftrightarrow> attribute f idx \<noteq> PNone \<and> py_ne_zero (attribute f idx)) \<and>
         (\<forall>v. attribute f idx = PInt v \<longrightarrow>
            (is_visible idx f \<longleftrightarrow> v \<noteq> 0) \<and>
            (subset_accepts (fst (update_layer_visibility lyr n)) f \<longleftrightarrow> v = 1)) \<and>
         subsetString (fst (update_layer_visibility lyr n))
           = CHR 0x22 # ''_fvt_vis'' @ CHR 0x22 # '' = 1''"
proof -
  have vis: "is_visible idx f \<longleftrightarrow> attribute f idx \<noteq> PNone \<and> py_ne_zero (attribute f idx)"
    using assms(2) by (simp add: is_visible_def Let_def)
  have upd: "fst (update_layer_visibility lyr n)
      = triggerRepaint (setSubsetString lyr (eq_one_expr vis_field))"
    using assms by (auto simp: update_layer_visibility_def Let_def)
  have expr: "subsetString (fst (update_layer_visibility lyr n))
           = CHR 0x22 # ''_fvt_vis'' @ CHR 0x22 # '' = 1''"
    by (simp add: upd triggerRepaint_def setSubsetString_def eq_one_expr_def vis_field_def)
  have acc: "subset_accepts (fst (update_layer_visibility lyr n)) f \<longleftrightarrow> is_one (attribute f idx)"
    using assms(1)
    by (simp add: upd subset_accepts_def triggerRepaint_def setSubsetString_def)
  have "(is_visible idx f \<longleftrightarrow> v \<noteq> 0) \<and>
        (subset_accepts (fst (update_layer_visibility lyr n)) f \<longleftrightarrow> v = 1)"
    if "attribute f idx = PInt v" for v
    using that vis acc by (simp add: is_one_def)
  with vis expr show ?thesis by blast
qed

theorem nonzero_flag_reads_visible_witness:
  "is_visible 1 dan \<and> \<not> subset_accepts (fst (update_layer_visibility flagged 0)) dan \<and>
   is_visible 1 ann \<and> subset_accepts (fst (update_layer_visibility flagged 0)) ann \<and>
   \<not> is_visible 1 ben \<and> \<not> subset_accepts (fst (update_layer_visibility flagged 0)) ben \<and>
   \<not> is_visible 1 cat"
proof -
  have a: "1 = indexOf (field_names flagged) vis_field"
    by (simp add: flagged_def vis_field_def)
  have b: "(1::int) \<ge> 0"
    by simp
  have d: "attribute dan 1 = PInt 2" and e: "attribute ann 1 = PInt 1"
    and g: "attribute ben 1 = PInt 0" and c: "attribute cat 1 = PNone"
    by (simp_all add: dan_def ann_def ben_def cat_def attribute_def)
  from nonzero_flag_reads_visible [OF a b, of dan 0] d
  have 1: "is_visible 1 dan \<and> \<not> subset_accepts (fst (update_layer_visibility flagged 0)) dan"
    by simp
  from nonzero_flag_reads_visible [OF a b, of ann 0] e
  have 2: "is_visible 1 ann \<and> subset_accepts (fst (update_layer_visibility flagged 0)) ann"
    by simp
  from nonzero_flag_reads_visible [OF a b, of ben 0] g
  have 3: "\<not> is_visible 1 ben \<and> \<not> subset_accepts (fst (update_layer_visibility flagged 0)) ben"
    by simp
  from nonzero_flag_reads_visible [OF a b, of cat 0] c
  have 4: "\<not> is_visible 1 cat"
    by simp
  from 1 2 3 4 show ?thesis by blast
qed

section \<open>Properties of the feature list\<close>

lemma populate_loop_unbounded:
  "snd (populate_loop B lyr flt idx None fs tracking acc) =
     acc @ map (row_of idx) (filter (\<lambda>f. feature_matches_filters B f lyr flt) fs)"
  by (induction fs arbitrary: tracking acc) (auto simp: Let_def row_of_def)

lemma populate_loop_bounded:
  "0 < n \<Longrightarrow> int (length acc) < n \<Longrightarrow>
   snd (populate_loop B lyr flt idx (Some n) fs tracking acc) =
     take (nat n) (acc @ map (row_of idx) (filter (\<lambda>f. feature_matches_filters B f lyr flt) fs))"
proof (induction fs arbitrary: tracking acc)
  case Nil
  then show ?case by simp
next
  case (Cons f fs)
  show ?case
  proof (cases "feature_matches_filters B f lyr flt")
    case False
    with Cons show ?thesis by simp
  next
    case True
    show ?thesis
    proof (cases "int (length (acc @ [row_of idx f])) \<ge> n")
      case full: True
      with Cons.prems have "nat n = length (acc @ [row_of idx f])" by simp
      with True full Cons.prems show ?thesis by (simp add: Let_def row_of_def)
    next
      case more: False
      with Cons.prems have "int (length (acc @ [row_of idx f])) < n" by simp
      from Cons.IH [OF Cons.prems(1) this] True more Cons.prems show ?thesis
        by (simp add: Let_def row_of_def)
    qed
  qed
qed

lemma populate_rows:
  "snd (populate B lyr flt limit tracking) =
     (if limit > 0
      then take (nat limit)
             (map (row_of (indexOf (field_names lyr) vis_field))
                (filter (\<lambda>f. feature_matches_filters B f lyr flt) (getFeatures lyr)))
      else map (row_of (indexOf (field_names lyr) vis_field))
             (filter (\<lambda>f. feature_matches_filters B f lyr flt) (getFeatures lyr)))"
  using populate_loop_bounded [of limit "[]"]
  by (simp add: populate_def Let_def populate_loop_unbounded)

text \<open>
  Claim C8. The rows listed are the features that pass the filter rules, in the order the
  layer enumerates them: all of them when the limit is 0 (or negative), the first \<open>n\<close> of
  them when the limit is a positive \<open>n\<close>. The limit counts only features that passed.
\<close>

theorem limit_after_filter:
  "snd (populate B lyr flt limit tracking) =
     (if limit > 0
      then take (nat limit)
             (map (row_of (indexOf (field_names lyr) vis_field))
                (filter (\<lambda>f. feature_matches_filters B f lyr flt) (getFeatures lyr)))
      else map (row_of (indexOf (field_names lyr) vis_field))
             (filter (\<lambda>f. feature_matches_filters B f lyr flt) (getFeatures lyr))) \<and>
   (limit > 0 \<longrightarrow> int (length (snd (populate B lyr flt limit tracking))) \<le> limit)"
  by (auto simp: populate_rows min_def)

theorem limit_after_filter_witness:
  "snd (populate decimal_builtins towns [(''name'', rule ''Contains'' ''jack'')] 0 Map.empty)
     = [(1, jack, True), (3, jacky, True)] \<and>
   snd (populate decimal_builtins towns [(''name'', rule ''Contains'' ''j'')] 1 Map.empty)
     = [(1, jack, True)] \<and>
   snd (populate decimal_builtins towns [(''name'', rule ''Starts with'' ''b'')] 1 Map.empty)
     = [(2, bob, True)]"
proof -
  have p: "filter (\<lambda>f. feature_matches_filters decimal_builtins f towns [(''name'', rule ''Contains'' ''jack'')])
      (getFeatures towns) = [jack, jacky]"
    by (simp add: eval_defs getFeatures_def subset_accepts_def eq_one_expr_def vis_field_def)
  have q: "filter (\<lambda>f. feature_matches_filters decimal_builtins f towns [(''name'', rule ''Contains'' ''j'')])
      (getFeatures towns) = [jack, jacky]"
    by (simp add: eval_defs getFeatures_def subset_accepts_def eq_one_expr_def vis_field_def)
  have r: "filter (\<lambda>f. feature_matches_filters decimal_builtins f towns [(''name'', rule ''Starts with'' ''b'')])
      (getFeatures towns) = [bob]"
    by (simp add: eval_defs getFeatures_def subset_accepts_def eq_one_expr_def vis_field_def)
  have i: "indexOf (field_names towns) vis_field = -1"
    by (simp add: towns_def vis_field_def)
  have v: "row_of (-1) jack = (1, jack, True)" "row_of (-1) jacky = (3, jacky, True)"
     "row_of (-1) bob = (2, bob, True)"
    by (simp_all add: row_of_def is_visible_def jack_def jacky_def bob_def)
  have a: "snd (populate decimal_builtins towns [(''name'', rule ''Contains'' ''jack'')] 0 Map.empty)
     = [(1, jack, True), (3, jacky, True)]"
    using limit_after_filter [of decimal_builtins towns "[(''name'', rule ''Contains'' ''jack'')]" 0 Map.empty]
    by (simp add: p i v)
  have b: "snd (populate decimal_builtins towns [(''name'', rule ''Contains'' ''j'')] 1 Map.empty)
     = [(1, jack, True)]"
    using limit_after_filter [of decimal_builtins towns "[(''name'', rule ''Contains'' ''j'')]" 1 Map.empty]
    by (simp add: q i v)
  have c: "snd (populate decimal_builtins towns [(''name'', rule ''Starts with'' ''b'')] 1 Map.empty)
     = [(2, bob, True)]"
    using limit_after_filter [of decimal_builtins towns "[(''name'', rule ''Starts with'' ''b'')]" 1 Map.empty]
    by (simp add: r i v)
  from a b c show ?thesis by blast
qed

text \<open>
  In every listed row the flag is the visibility read of the row's feature: hidden for the
  value \<^verbatim>\<open>None\<close> when the layer has the reserved field, visible for the host's
  \<^verbatim>\<open>NULL\<close>, and visible for every feature of a layer without the field.
\<close>

lemma listed_flag_read:
  assumes "(i, f, vis) \<in> set (snd (populate B lyr flt limit tracking))"
  shows "vis = is_visible (indexOf (field_names lyr) vis_field) f"
proof -
  from assms have "(i, f, vis) \<in> set (map (row_of (indexOf (field_names lyr) vis_field))
                (filter (\<lambda>f. feature_matches_filters B f lyr flt) (getFeatures lyr)))"
    by (auto simp: populate_rows split: if_splits dest: in_set_takeD)
  then show ?thesis
    by (auto simp: row_of_def)
qed

lemma listed_flag_by_value:
  assumes "(i, f, vis) \<in> set (snd (populate B lyr flt limit tracking))"
  shows "(vis_field \<in> set (field_names lyr) \<and>
            attribute f (indexOf (field_names lyr) vis_field) = PNone \<longrightarrow> \<not> vis) \<and>
         (vis_field \<in> set (field_names lyr) \<and>
            attribute f (indexOf (field_names lyr) vis_field) = PNull \<longrightarrow> vis) \<and>
         (vis_field \<notin> set (field_names lyr) \<longrightarrow> vis)"
  using listed_flag_read [OF assms] indexOf_present [of "field_names lyr" vis_field]
  by (auto simp: is_visible_def)

text \<open>
  Claim C1. The claim asks that a null stored value read as visible, as an absent field
  does and as the comment above the read says (``default: 1 = visible''). The code does so
  for the host's \<^verbatim>\<open>NULL\<close>, but a feature whose reserved attribute is \<^verbatim>\<open>None\<close> is listed
  with the flag \<open>False\<close>: \<^verbatim>\<open>vis_value is not None and vis_value != 0\<close> is false on
  \<^verbatim>\<open>None\<close>.
\<close>

theorem null_flag_listed_hidden:
  "vis_field \<in> set (field_names flagged) \<and>
   attribute cat (indexOf (field_names flagged) vis_field) = PNone \<and>
   attribute eve (indexOf (field_names flagged) vis_field) = PNull \<and>
   snd (populate decimal_builtins flagged [] 0 Map.empty)
     = [(1, ann, True), (2, ben, False), (3, cat, False), (4, dan, True), (5, eve, True)] \<and>
   snd (populate decimal_builtins towns [] 0 Map.empty)
     = [(1, jack, True), (2, bob, True), (3, jacky, True)]"
  by (simp add: populate_def Let_def feature_matches_filters_def getFeatures_def subset_accepts_def
      eq_one_expr_def is_visible_def flag_defs towns_def jack_def bob_def jacky_def)

section \<open>Properties of the saved filter rules\<close>

subsection \<open>Escaping and its inverse\<close>

lemma esc_char_simps:
  "esc_char CHR '':'' = ''_COLON_''"
  "esc_char CHR ''|'' = ''_PIPE_''"
  "c \<noteq> CHR '':'' \<Longrightarrow> c \<noteq> CHR ''|'' \<Longrightarrow> esc_char c = [c]"
  by (simp_all add: esc_char_def)

lemma pipe_char_simps:
  "pipe_char CHR ''|'' = ''_PIPE_''"
  "c \<noteq> CHR ''|'' \<Longrightarrow> pipe_char c = [c]"
  by (simp_all add: pipe_char_def)

lemma replace_char:
  "replace_scan [c] new s = concat (map (\<lambda>x. if x = c then new else [x]) s)"
  by (induction s) auto

lemma escape_chars: "escape s = concat (map esc_char s)"
proof -
  have "concat (map (\<lambda>x. if x = CHR ''|'' then ''_PIPE_'' else [x])
            (concat (map (\<lambda>x. if x = CHR '':'' then ''_COLON_'' else [x]) s)))
        = concat (map esc_char s)"
    by (induction s) (auto simp: esc_char_def)
  then show ?thesis
    by (simp add: escape_def replace_def replace_char)
qed

lemma startswith_py_in: "startswith s p \<Longrightarrow> py_in p s"
  by (cases s; cases p) auto

lemma py_in_tail: "\<not> py_in p (c # s) \<Longrightarrow> \<not> py_in p s \<and> \<not> startswith s p"
  using startswith_py_in by auto

lemma startswith_esc_plain:
  "x \<noteq> CHR ''_'' \<Longrightarrow> x \<noteq> CHR '':'' \<Longrightarrow> x \<noteq> CHR ''|'' \<Longrightarrow>
   startswith (concat (map esc_char s)) (x # q) \<longleftrightarrow>
     (\<exists>s'. s = x # s' \<and> startswith (concat (map esc_char s')) q)"
  by (cases s) (auto simp: esc_char_def)

lemma startswith_esc_COLON:
  "startswith (concat (map esc_char s)) ''COLON_'' \<Longrightarrow> startswith s ''COLON''"
  by (auto simp: startswith_esc_plain)

lemma startswith_pipe_plain:
  "x \<noteq> CHR ''_'' \<Longrightarrow> x \<noteq> CHR ''|'' \<Longrightarrow>
   startswith (concat (map pipe_char s)) (x # q) \<longleftrightarrow>
     (\<exists>s'. s = x # s' \<and> startswith (concat (map pipe_char s')) q)"
  by (cases s) (auto simp: pipe_char_def)

lemma startswith_pipe_PIPE:
  "startswith (concat (map pipe_char s)) ''PIPE_'' \<Longrightarrow> startswith s ''PIPE''"
  by (auto simp: startswith_pipe_plain)

lemma unescape_colons:
  "\<not> py_in ''COLON'' s \<Longrightarrow>
   replace_scan ''_COLON_'' '':'' (concat (map esc_char s)) = concat (map pipe_char s)"
proof (induction s)
  case Nil
  then show ?case by simp
next
  case (Cons c s)
  from py_in_tail [OF Cons.prems] have tl: "\<not> py_in ''COLON'' s" and hd: "\<not> startswith s ''COLON''"
    by simp_all
  from hd startswith_esc_COLON have no: "\<not> startswith (concat (map esc_char s)) ''COLON_''"
    by blast
  note IH = Cons.IH [OF tl]
  consider "c = CHR '':''" | "c = CHR ''|''" | "c = CHR ''_''" | "c \<noteq> CHR '':''" "c \<noteq> CHR ''|''" "c \<noteq> CHR ''_''"
    by blast
  then show ?case
  proof cases
    case 1
    then show ?thesis using IH by (simp add: esc_char_simps pipe_char_simps)
  next
    case 2
    then show ?thesis using IH no by (simp add: esc_char_simps pipe_char_simps)
  next
    case 3
    then show ?thesis using IH no by (simp add: esc_char_simps pipe_char_simps)
  next
    case 4
    then show ?thesis using IH by (simp add: esc_char_simps pipe_char_simps)
  qed
qed

lemma unescape_pipes:
  "\<not> py_in ''PIPE'' s \<Longrightarrow> replace_scan ''_PIPE_'' ''|'' (concat (map pipe_char s)) = s"
proof (induction s)
  case Nil
  then show ?case by simp
next
  case (Cons c s)
  from py_in_tail [OF Cons.prems] have tl: "\<not> py_in ''PIPE'' s" and hd: "\<not> startswith s ''PIPE''"
    by simp_all
  from hd startswith_pipe_PIPE have no: "\<not> startswith (concat (map pipe_char s)) ''PIPE_''"
    by blast
  note IH = Cons.IH [OF tl]
  consider "c = CHR ''|''" | "c = CHR ''_''" | "c \<noteq> CHR ''|''" "c \<noteq> CHR ''_''"
    by blast
  then show ?case
  proof cases
    case 1
    then show ?thesis using IH by (simp add: pipe_char_simps)
  next
    case 2
    then show ?thesis using IH no by (simp add: pipe_char_simps)
  next
    case 3
    then show ?thesis using IH by (simp add: pipe_char_simps)
  qed
qed

lemma unescape_escape: "clean s \<Longrightarrow> unescape (escape s) = s"
  by (simp add: unescape_def replace_def escape_chars clean_def unescape_colons unescape_pipes)

lemma clean_reversible: "clean s \<Longrightarrow> reversible s"
  by (simp add: reversible_def unescape_escape)

text \<open>Text with the words but without a token around them is given back as well.\<close>

lemma reversible_examples:
  "reversible ''PIPE_ID'' \<and> reversible ''PIPELINE'' \<and> reversible ''SEMICOLON'' \<and>
   reversible ''a:b|c_d'' \<and> reversible '':COLON:'' \<and>
   \<not> reversible ''a_COLON_b'' \<and> \<not> reversible ''|COLON:''"
  by (simp add: reversible_def unescape_def escape_def replace_def)

lemma escape_no_sep: "CHR '':'' \<notin> set (escape s) \<and> CHR ''|'' \<notin> set (escape s)"
  by (auto simp: escape_chars esc_char_def split: if_splits)


subsection \<open>Splitting what was joined\<close>

lemma split_no_sep: "sep \<notin> set p \<Longrightarrow> split p sep = [p]"
  by (induction p) auto

lemma split_append_sep:
  "sep \<notin> set p \<Longrightarrow> split (p @ sep # rest) sep = p # split rest sep"
  by (induction p) auto

lemma split_join:
  "parts \<noteq> [] \<Longrightarrow> \<forall>p \<in> set parts. sep \<notin> set p \<Longrightarrow> split (join [sep] parts) sep = parts"
proof (induction parts)
  case Nil
  then show ?case by simp
next
  case (Cons x xs)
  show ?case
  proof (cases xs)
    case Nil
    with Cons.prems show ?thesis by (simp add: split_no_sep)
  next
    case (Cons y r)
    with Cons.prems Cons.IH show ?thesis by (simp add: split_append_sep)
  qed
qed

lemma split_max_append_sep:
  "sep \<notin> set p \<Longrightarrow> split_max (p @ sep # rest) sep (Suc n) = p # split_max rest sep n"
  by (induction p) auto

lemma split_max_triple:
  "CHR '':'' \<notin> set a \<Longrightarrow> CHR '':'' \<notin> set b \<Longrightarrow>
   split_max (a @ '':'' @ b @ '':'' @ c) CHR '':'' 2 = [a, b, c]"
  by (simp add: numeral_2_eq_2 split_max_append_sep)

lemma py_in_char: "py_in [c] s \<longleftrightarrow> c \<in> set s"
  by (induction s) auto

lemma dict_set_new: "k \<notin> fst ` set d \<Longrightarrow> dict_set d k v = d @ [(k, v)]"
  by (induction d) auto

lemma load_one:
  assumes "reversible_item item" "filter_part_of item = Some part"
  shows "load_loop (part # rest) acc = load_loop rest (dict_set acc (fst item) (snd item))"
proof -
  from assms(1) obtain t v where tv: "ftype (snd item) = Some t" "fvalue (snd item) = Some v"
    and cl: "unescape (escape (fst item)) = fst item" "unescape (escape t) = t"
      "unescape (escape v) = v"
    by (auto simp: reversible_item_def reversible_def split: option.splits)
  from assms(2) tv have part: "part = escape (fst item) @ '':'' @ escape t @ '':'' @ escape v"
    by (simp add: filter_part_of_def)
  have sp: "split_max part CHR '':'' 2 = [escape (fst item), escape t, escape v]"
    unfolding part using escape_no_sep by (intro split_max_triple) auto
  have colon: "py_in '':'' part"
    by (simp add: py_in_char part)
  have rec: "\<lparr>ftype = Some t, fvalue = Some v\<rparr> = snd item"
    using tv by simp
  show ?thesis
    using colon sp cl rec by (simp add: Let_def)
qed

lemma load_all:
  "\<forall>item \<in> set m. reversible_item item \<Longrightarrow> distinct (map fst m) \<Longrightarrow>
   fst ` set acc \<inter> fst ` set m = {} \<Longrightarrow>
   those (map filter_part_of m) = Some parts \<Longrightarrow>
   load_loop parts acc = acc @ m"
proof (induction m arbitrary: acc parts)
  case Nil
  then show ?case by simp
next
  case (Cons item m)
  from Cons.prems(4) obtain part parts' where p: "filter_part_of item = Some part"
    "those (map filter_part_of m) = Some parts'" "parts = part # parts'"
    by (auto split: option.splits)
  from Cons.prems(1) have ci: "reversible_item item" by simp
  from Cons.prems(3) have new: "fst item \<notin> fst ` set acc" by auto
  have step: "load_loop parts acc = load_loop parts' (acc @ [item])"
    using load_one [OF ci p(1)] new by (simp add: p(3) dict_set_new)
  have "load_loop parts' (acc @ [item]) = (acc @ [item]) @ m"
    using Cons.prems by (intro Cons.IH p(2)) auto
  with step show ?case by simp
qed

lemma those_parts:
  "\<forall>item \<in> set m. reversible_item item \<Longrightarrow>
   \<exists>parts. those (map filter_part_of m) = Some parts \<and> length parts = length m \<and>
     (\<forall>p \<in> set parts. CHR ''|'' \<notin> set p)"
proof (induction m)
  case Nil
  then show ?case by simp
next
  case (Cons item m)
  then obtain parts where ps: "those (map filter_part_of m) = Some parts" "length parts = length m"
     "\<forall>p \<in> set parts. CHR ''|'' \<notin> set p"
    by auto
  from Cons.prems obtain t v where tv: "ftype (snd item) = Some t" "fvalue (snd item) = Some v"
    by (auto simp: reversible_item_def split: option.splits)
  then have "filter_part_of item = Some (escape (fst item) @ '':'' @ escape t @ '':'' @ escape v)"
    by (simp add: filter_part_of_def)
  moreover have "CHR ''|'' \<notin> set (escape (fst item) @ '':'' @ escape t @ '':'' @ escape v)"
    using escape_no_sep by simp
  ultimately show ?case using ps by auto
qed

text \<open>
  Where the round trip holds: a non-empty dictionary of rules (distinct field names, every
  rule with its type and its value) is reproduced exactly by saving and loading whenever
  unescaping gives back each field name, type and value after escaping. That is so for
  every text without the words \<^verbatim>\<open>COLON\<close> and \<^verbatim>\<open>PIPE\<close>, whatever colons, pipes and
  underscores it has, and for the texts of \<open>reversible_examples\<close>.
\<close>

lemma filters_round_trip:
  assumes "m \<noteq> []" "distinct (map fst m)" "\<forall>item \<in> set m. reversible_item item"
  shows "load_filters (save_filters m) = Some m"
proof -
  from those_parts [OF assms(3)] obtain parts where
    ps: "those (map filter_part_of m) = Some parts" "length parts = length m"
    "\<forall>p \<in> set parts. CHR ''|'' \<notin> set p"
    by blast
  from ps(2) assms(1) have ne: "parts \<noteq> []" by auto
  have saved: "save_filters m = Some (join ''|'' parts)"
    using ps(1) ne by (simp add: save_filters_def)
  have nonempty: "join ''|'' parts \<noteq> []"
  proof
    assume "join ''|'' parts = []"
    then have "split (join ''|'' parts) CHR ''|'' = [[]]" by simp
    with split_join [OF ne ps(3)] have "parts = [[]]" by simp
    with ps(1) assms(3) show False
      by (cases m) (auto simp: filter_part_of_def reversible_item_def split: option.splits)
  qed
  have "load_loop (split (join ''|'' parts) CHR ''|'') [] = m"
    using load_all [OF assms(3) assms(2) _ ps(1), of "[]"] split_join [OF ne ps(3)] by simp
  with saved nonempty assms(1) show ?thesis
    by (simp add: load_filters_def Let_def)
qed

lemma filters_round_trip_example:
  "load_filters (save_filters [(''a:b|c'', rule ''Contains'' ''x:|y''), (''PIPE_ID'', rule ''Greater than'' ''1:0'')])
     = Some [(''a:b|c'', rule ''Contains'' ''x:|y''), (''PIPE_ID'', rule ''Greater than'' ''1:0'')]"
proof -
  have a: "[(''a:b|c'', rule ''Contains'' ''x:|y''), (''PIPE_ID'', rule ''Greater than'' ''1:0'')] \<noteq> []"
    by simp
  have b: "distinct (map fst [(''a:b|c'', rule ''Contains'' ''x:|y''), (''PIPE_ID'', rule ''Greater than'' ''1:0'')])"
    by simp
  have c: "\<forall>item \<in> set [(''a:b|c'', rule ''Contains'' ''x:|y''), (''PIPE_ID'', rule ''Greater than'' ''1:0'')].
      reversible_item item"
    by (simp add: reversible_item_def reversible_def unescape_def escape_def replace_def rule_def)
  from filters_round_trip [OF a b c] show ?thesis .
qed

text \<open>
  Claim C4. The claim asks that every rule set with embedded colons and pipes come back from
  saving and loading as it was, and the code escapes both characters to that end. It does
  not reach it on every such rule set: for the filter value \<^verbatim>\<open>|COLON:\<close> the end of
  \<^verbatim>\<open>_PIPE_\<close> and the text after it read as \<^verbatim>\<open>_COLON_\<close>, and the value comes back as
  \<^verbatim>\<open>_PIPE:COLON_\<close>. The same happens to a field name.
\<close>

theorem round_trip_changes_value:
  "save_filters [(''name'', rule ''Contains'' ''|COLON:'')]
     = Some ''name:Contains:_PIPE_COLON_COLON_'' \<and>
   load_filters (save_filters [(''name'', rule ''Contains'' ''|COLON:'')])
     = Some [(''name'', rule ''Contains'' ''_PIPE:COLON_'')] \<and>
   load_filters (save_filters [(''name'', rule ''Contains'' ''|COLON:'')])
     \<noteq> Some [(''name'', rule ''Contains'' ''|COLON:'')] \<and>
   load_filters (save_filters [(''|COLON:'', rule ''Contains'' ''x'')])
     = Some [(''_PIPE:COLON_'', rule ''Contains'' ''x'')]"
  by (simp add: save_filters_def filter_part_of_def escape_def replace_def load_filters_def
      unescape_def rule_def Let_def numeral_2_eq_2)

text \<open>
  Claim C10. Escaping is not injective: a rule set whose field name and value contain the
  literal texts \<^verbatim>\<open>_COLON_\<close> and \<^verbatim>\<open>_PIPE_\<close> is saved as the same text as the rule set
  with \<^verbatim>\<open>:\<close> and \<^verbatim>\<open>|\<close> in their place, and loading gives back the latter.
\<close>

theorem escaping_not_injective:
  "py_in ''_COLON_'' ''a_COLON_b'' \<and> py_in ''_PIPE_'' ''x_PIPE_y'' \<and>
   save_filters [(''a_COLON_b'', rule ''Equals'' ''x_PIPE_y'')]
     = save_filters [(''a:b'', rule ''Equals'' ''x|y'')] \<and>
   load_filters (save_filters [(''a_COLON_b'', rule ''Equals'' ''x_PIPE_y'')])
     = Some [(''a:b'', rule ''Equals'' ''x|y'')] \<and>
   load_filters (save_filters [(''a_COLON_b'', rule ''Equals'' ''x_PIPE_y'')])
     \<noteq> Some [(''a_COLON_b'', rule ''Equals'' ''x_PIPE_y'')]"
  by (simp add: save_filters_def filter_part_of_def escape_def replace_def load_filters_def
      unescape_def rule_def Let_def numeral_2_eq_2)

end
